theory Spec2Isabelle
  imports Complex_Main "HOL-Library.Word"
begin

chapter \<open>Promise: groups of blocked websites and the request blocker\<close>

text \<open>
  A shallow embedding of \<^verbatim>\<open>background/background.js\<close> and of the data operations of
  \<^verbatim>\<open>popup/popup.js\<close>. Mutable globals (\<^verbatim>\<open>groups\<close>, \<^verbatim>\<open>currentListener\<close>) and the
  browser objects the code talks to (the local storage area, the \<^verbatim>\<open>onBeforeRequest\<close>
  event, the popup's DOM) are fields of explicit state records. A JavaScript exception is
  a value: an operation returns the state it had reached together with how it ended.
  Every operation of the popup runs without interruption up to its only \<^verbatim>\<open>await\<close>, the
  one on \<^verbatim>\<open>saveGroups\<close> at its end, so an operation is one step on the state.
\<close>

section \<open>JavaScript strings\<close>

text \<open>
  A JavaScript string is a sequence of 16-bit code units. \<open>js\<close> embeds an ASCII literal
  of the source.
\<close>

type_synonym jschar = "16 word"
type_synonym jsstring = "jschar list"

definition js :: "string \<Rightarrow> jsstring" where
  "js s = map (\<lambda>c. of_char c) s"

section \<open>Array and string operations of the language\<close>

text \<open>
  \<^verbatim>\<open>findIndex\<close> and \<^verbatim>\<open>indexOf\<close> answer \<open>-1\<close> when nothing matches, so indices are
  integers. \<^verbatim>\<open>indexOf\<close> and \<^verbatim>\<open>includes\<close> compare strings by value.
\<close>

fun findIndex :: "('a \<Rightarrow> bool) \<Rightarrow> 'a list \<Rightarrow> int" where
  "findIndex P [] = - 1"
| "findIndex P (x # xs) =
     (if P x then 0 else (let i = findIndex P xs in if i < 0 then - 1 else i + 1))"

definition indexOf :: "'a list \<Rightarrow> 'a \<Rightarrow> int" where
  "indexOf xs x = findIndex (\<lambda>y. y = x) xs"

definition array_includes :: "'a list \<Rightarrow> 'a \<Rightarrow> bool" where
  "array_includes xs x = (x \<in> set xs)"

text \<open>\<^verbatim>\<open>xs[i]\<close>: \<open>None\<close> stands for \<^verbatim>\<open>undefined\<close>, the value of a read outside the array.\<close>

definition element_at :: "'a list \<Rightarrow> int \<Rightarrow> 'a option" where
  "element_at xs i = (if 0 \<le> i \<and> i < int (length xs) then Some (xs ! nat i) else None)"

text \<open>
  The array after \<^verbatim>\<open>xs.splice(start, deleteCount)\<close>: a negative \<open>start\<close> counts from the
  end, and both the start and the count are clamped to the array.
\<close>

definition array_splice :: "'a list \<Rightarrow> int \<Rightarrow> nat \<Rightarrow> 'a list" where
  "array_splice xs start deleteCount =
     (let n = int (length xs);
          actualStart = nat (if start < 0 then max (n + start) 0 else min start n);
          k = min deleteCount (length xs - actualStart)
      in take actualStart xs @ drop (actualStart + k) xs)"

text \<open>\<^verbatim>\<open>xs.slice(start)\<close>, with the same reading of a negative \<open>start\<close>.\<close>

definition slice_from :: "'a list \<Rightarrow> int \<Rightarrow> 'a list" where
  "slice_from xs start =
     (let n = int (length xs)
      in drop (nat (if start < 0 then max (n + start) 0 else min start n)) xs)"

text \<open>
  \<^verbatim>\<open>String.prototype.trim\<close> strips white space and line terminators from both ends:
  TAB, LF, VT, FF, CR, the space separators of Unicode (U+0020, U+00A0, U+1680,
  U+2000 to U+200A, U+202F, U+205F, U+3000), U+2028, U+2029 and U+FEFF.
\<close>

definition white_space :: "jschar \<Rightarrow> bool" where
  "white_space c \<longleftrightarrow>
     c \<in> {0x9, 0xA, 0xB, 0xC, 0xD, 0x20, 0xA0, 0x1680, 0x2028, 0x2029, 0x202F, 0x205F,
          0x3000, 0xFEFF}
     \<or> (0x2000 \<le> c \<and> c \<le> 0x200A)"

definition trim :: "jsstring \<Rightarrow> jsstring" where
  "trim s = rev (dropWhile white_space (rev (dropWhile white_space s)))"

text \<open>\<^verbatim>\<open>s.startsWith(p)\<close> and \<^verbatim>\<open>s.includes(p)\<close> on strings.\<close>

definition startsWith :: "jsstring \<Rightarrow> jsstring \<Rightarrow> bool" where
  "startsWith s p = (take (length p) s = p)"

fun string_includes :: "jsstring \<Rightarrow> jsstring \<Rightarrow> bool" where
  "string_includes [] p = (p = [])"
| "string_includes (c # cs) p = (startsWith (c # cs) p \<or> string_includes cs p)"

text \<open>
  \<^verbatim>\<open>s.split(sep)\<close> for a separator of one code unit (the empty string splits into one
  empty part), and \<^verbatim>\<open>parts.join(sep)\<close>.
\<close>

fun split_on :: "jschar \<Rightarrow> jsstring \<Rightarrow> jsstring list" where
  "split_on sep [] = [[]]"
| "split_on sep (c # cs) =
     (if c = sep then [] # split_on sep cs
      else (case split_on sep cs of
              [] \<Rightarrow> [[c]]
            | part # parts \<Rightarrow> (c # part) # parts))"

fun join :: "jsstring \<Rightarrow> jsstring list \<Rightarrow> jsstring" where
  "join sep [] = []"
| "join sep [part] = part"
| "join sep (part # parts) = part @ sep @ join sep parts"

section \<open>Regular expressions\<close>

text \<open>
  The fragment of the language's regular expressions that the source uses: character
  classes given by ranges of code units, sequence, alternative and repetition. A class
  range \<open>(lo, hi)\<close> holds the code units from \<open>lo\<close> to \<open>hi\<close>. \<open>matches r s\<close> says that
  \<open>r\<close> matches the whole of \<open>s\<close>, which is what \<^verbatim>\<open>/^r$/.test(s)\<close> decides; it is computed
  with derivatives.
\<close>

datatype regex =
    Fail
  | Empty
  | Class "(jschar \<times> jschar) list"
  | Seq regex regex
  | Alt regex regex
  | Star regex

definition in_class :: "(jschar \<times> jschar) list \<Rightarrow> jschar \<Rightarrow> bool" where
  "in_class ranges c = list_ex (\<lambda>(lo, hi). lo \<le> c \<and> c \<le> hi) ranges"

primrec nullable :: "regex \<Rightarrow> bool" where
  "nullable Fail = False"
| "nullable Empty = True"
| "nullable (Class ranges) = False"
| "nullable (Seq r1 r2) = (nullable r1 \<and> nullable r2)"
| "nullable (Alt r1 r2) = (nullable r1 \<or> nullable r2)"
| "nullable (Star r) = True"

primrec deriv :: "jschar \<Rightarrow> regex \<Rightarrow> regex" where
  "deriv c Fail = Fail"
| "deriv c Empty = Fail"
| "deriv c (Class ranges) = (if in_class ranges c then Empty else Fail)"
| "deriv c (Seq r1 r2) =
     (if nullable r1 then Alt (Seq (deriv c r1) r2) (deriv c r2) else Seq (deriv c r1) r2)"
| "deriv c (Alt r1 r2) = Alt (deriv c r1) (deriv c r2)"
| "deriv c (Star r) = Seq (deriv c r) (Star r)"

definition matches :: "regex \<Rightarrow> jsstring \<Rightarrow> bool" where
  "matches r s = nullable (foldl (\<lambda>r c. deriv c r) r s)"

text \<open>The quantifiers \<^verbatim>\<open>r+\<close>, \<^verbatim>\<open>r{n}\<close> and \<^verbatim>\<open>r{m,n}\<close>.\<close>

definition one_or_more :: "regex \<Rightarrow> regex" where
  "one_or_more r = Seq r (Star r)"

primrec exactly :: "nat \<Rightarrow> regex \<Rightarrow> regex" where
  "exactly 0 r = Empty"
| "exactly (Suc n) r = Seq r (exactly n r)"

definition between :: "nat \<Rightarrow> nat \<Rightarrow> regex \<Rightarrow> regex" where
  "between m n r = Seq (exactly m r) (exactly (n - m) (Alt r Empty))"

section \<open>Groups\<close>

text \<open>The object literal \<^verbatim>\<open>{ title, websites: [], active: true, expanded: true }\<close>.\<close>

record group =
  title :: jsstring
  websites :: "jsstring list"
  active :: bool
  expanded :: bool

section \<open>background.js: the request blocker\<close>

text \<open>
  The callback of \<^verbatim>\<open>loadAndBlockWebsites\<close> first computes
  \<^verbatim>\<open>groups.filter(group => group.active).flatMap(group => group.websites)\<close>.
\<close>

definition blockedWebsites :: "group list \<Rightarrow> jsstring list" where
  "blockedWebsites groups = concat (map websites (filter active groups))"

text \<open>
  The two template literals \<^verbatim>\<open>`*://${site}/*`\<close> and \<^verbatim>\<open>`*://*.${site}/*`\<close>: the match
  pattern for the host itself and the one for its subdomains.
\<close>

definition exactPattern :: "jsstring \<Rightarrow> jsstring" where
  "exactPattern site = js ''*://'' @ site @ js ''/*''"

definition subdomainPattern :: "jsstring \<Rightarrow> jsstring" where
  "subdomainPattern site = js ''*://*.'' @ site @ js ''/*''"

definition urlPatterns :: "jsstring list \<Rightarrow> jsstring list" where
  "urlPatterns sites = concat (map (\<lambda>site. [exactPattern site, subdomainPattern site]) sites)"

text \<open>The pattern list the blocker derives from a group collection.\<close>

definition compile :: "group list \<Rightarrow> jsstring list" where
  "compile groups = urlPatterns (blockedWebsites groups)"

text \<open>
  The state of the background page. A listener is a closure; each evaluation of the arrow
  function makes a new one, named here by a number (\<open>closures\<close> counts the ones made so
  far). \<open>registered\<close> is the listener table of \<^verbatim>\<open>browser.webRequest.onBeforeRequest\<close>
  with each listener's \<^verbatim>\<open>urls\<close> filter, \<open>calls\<close> the calls made on that event, in order.
\<close>

datatype webRequest_call = RemoveListener nat | AddListener nat "jsstring list"

record background =
  currentListener :: "nat option"
  registered :: "(nat \<times> jsstring list) list"
  closures :: nat
  calls :: "webRequest_call list"
  console :: "jsstring list"

definition removeListener :: "nat \<Rightarrow> background \<Rightarrow> background" where
  "removeListener f s =
     s\<lparr>registered := filter (\<lambda>(g, urls). g \<noteq> f) (registered s),
       calls := calls s @ [RemoveListener f]\<rparr>"

definition addListener :: "nat \<Rightarrow> jsstring list \<Rightarrow> background \<Rightarrow> background" where
  "addListener f urls s =
     s\<lparr>registered := registered s @ [(f, urls)],
       calls := calls s @ [AddListener f urls]\<rparr>"

text \<open>
  The callback that \<^verbatim>\<open>loadAndBlockWebsites\<close> passes to \<^verbatim>\<open>then\<close>. Its argument is
  \<^verbatim>\<open>data.groups\<close>: \<open>None\<close> when the key is not stored (\<^verbatim>\<open>data.groups || []\<close> is then
  the empty array), otherwise the array the popup saved.
\<close>

definition loadAndBlockWebsites :: "group list option \<Rightarrow> background \<Rightarrow> background" where
  "loadAndBlockWebsites data s =
     (let groups = (case data of None \<Rightarrow> [] | Some gs \<Rightarrow> gs);
          sites = blockedWebsites groups
      in if length sites > 0 then
           (let patterns = urlPatterns sites;
                s1 = (case currentListener s of
                        Some f \<Rightarrow> removeListener f s
                      | None \<Rightarrow> s);
                f' = closures s1;
                s2 = s1\<lparr>currentListener := Some f', closures := Suc f'\<rparr>
            in addListener f' patterns s2)
         else
           (let s1 = s\<lparr>console := console s @ [js ''No websites to block.'']\<rparr>
            in case currentListener s1 of
                 Some f \<Rightarrow> (removeListener f s1)\<lparr>currentListener := None\<rparr>
               | None \<Rightarrow> s1))"

section \<open>Stored values\<close>

text \<open>
  The values the local storage area can hold are those of JSON; a number is a rational
  here (JSON has no NaN and no infinity). \<open>JUndefined\<close> is what reading a missing property
  gives.
\<close>

datatype jsval =
    JUndefined
  | JNull
  | JBool bool
  | JNum rat
  | JStr jsstring
  | JArr "jsval list"
  | JObj "(jsstring \<times> jsval) list"

text \<open>What \<^verbatim>\<open>||\<close> and \<^verbatim>\<open>if\<close> take for true.\<close>

fun truthy :: "jsval \<Rightarrow> bool" where
  "truthy JUndefined = False"
| "truthy JNull = False"
| "truthy (JBool b) = b"
| "truthy (JNum x) = (x \<noteq> 0)"
| "truthy (JStr s) = (s \<noteq> [])"
| "truthy (JArr xs) = True"
| "truthy (JObj kvs) = True"

text \<open>
  \<^verbatim>\<open>v.key\<close> for a value that is neither \<^verbatim>\<open>undefined\<close> nor \<^verbatim>\<open>null\<close> (the only place
  the modelled code reads a property of a stored value is behind that test).
\<close>

fun property :: "jsval \<Rightarrow> jsstring \<Rightarrow> jsval" where
  "property (JObj kvs) key = (case map_of kvs key of None \<Rightarrow> JUndefined | Some v \<Rightarrow> v)"
| "property v key = JUndefined"

type_synonym storage_area = "jsstring \<rightharpoonup> jsval"

text \<open>
  \<^verbatim>\<open>browser.storage.local.get(key)\<close> resolves to an object that has the property \<open>key\<close>
  exactly when the area stores it.
\<close>

definition storage_get :: "storage_area \<Rightarrow> jsstring \<Rightarrow> jsval" where
  "storage_get area key = (case area key of None \<Rightarrow> JObj [] | Some v \<Rightarrow> JObj [(key, v)])"

text \<open>A group, and the array of groups, as stored values.\<close>

definition group_val :: "group \<Rightarrow> jsval" where
  "group_val g =
     JObj [(js ''title'', JStr (title g)),
           (js ''websites'', JArr (map JStr (websites g))),
           (js ''active'', JBool (active g)),
           (js ''expanded'', JBool (expanded g))]"

definition groups_val :: "group list \<Rightarrow> jsval" where
  "groups_val gs = JArr (map group_val gs)"

section \<open>popup.js: loading\<close>

text \<open>
  \<^verbatim>\<open>loadGroups\<close> after its \<^verbatim>\<open>await\<close>; \<open>data\<close> is what \<^verbatim>\<open>get\<close> resolved to. When
  \<^verbatim>\<open>data != undefined\<close> fails the function ends without \<^verbatim>\<open>return\<close>, which gives
  \<^verbatim>\<open>undefined\<close>.
\<close>

definition loadGroups_of :: "jsval \<Rightarrow> jsval" where
  "loadGroups_of data =
     (if data \<noteq> JUndefined \<and> data \<noteq> JNull then
        (let stored = property data (js ''groups'')
         in if truthy stored then stored else JArr [])
      else JUndefined)"

definition loadGroups :: "storage_area \<Rightarrow> jsval" where
  "loadGroups area = loadGroups_of (storage_get area (js ''groups''))"

section \<open>popup.js: the group collection\<close>

text \<open>
  How a call ends: it returns, or an exception leaves it. The state a call had reached
  when the exception was thrown stays as it is.
\<close>

datatype js_error = TypeError

datatype outcome = Returned | Thrown js_error

text \<open>
  The popup's DOM, as far as the operations read and write it. A group's \<^verbatim>\<open>div\<close> shows
  the title and, while the group is expanded, a \<^verbatim>\<open>.websites\<close> container with one item
  per website (\<open>None\<close>: the \<^verbatim>\<open>div\<close> has no such container, and \<^verbatim>\<open>querySelector\<close>
  answers \<^verbatim>\<open>null\<close>).
\<close>

record group_div =
  heading :: jsstring
  websites_el :: "jsstring list option"

text \<open>
  The popup's state: the global \<^verbatim>\<open>groups\<close>; every group \<^verbatim>\<open>div\<close> created so far
  (\<open>elements\<close>: a reference to a \<^verbatim>\<open>div\<close> is its position in this list, which never
  shrinks); the children of \<^verbatim>\<open>groupsContainer\<close>, as references; the value of the
  \<^verbatim>\<open>newGroupTitle\<close> input; the messages shown, each with its \<^verbatim>\<open>isError\<close> flag; the
  console; the local storage area and the number of \<^verbatim>\<open>set\<close> calls made on it.
\<close>

record popup =
  groups :: "group list"
  elements :: "group_div list"
  children :: "nat list"
  newGroupTitle :: jsstring
  messages :: "(jsstring \<times> bool) list"
  logged :: "jsstring list"
  storage :: storage_area
  set_calls :: nat

definition saveGroups :: "popup \<Rightarrow> popup" where
  "saveGroups s =
     s\<lparr>storage := (storage s)(js ''groups'' \<mapsto> groups_val (groups s)),
       set_calls := Suc (set_calls s)\<rparr>"

definition showMessage :: "jsstring \<Rightarrow> bool \<Rightarrow> popup \<Rightarrow> popup" where
  "showMessage message isError s = s\<lparr>messages := messages s @ [(message, isError)]\<rparr>"

text \<open>
  \<^verbatim>\<open>displayGroup\<close> builds a new \<^verbatim>\<open>div\<close> (with the website list when the group is
  expanded) and appends it to the container.
\<close>

definition displayGroup :: "group \<Rightarrow> popup \<Rightarrow> popup" where
  "displayGroup g s =
     s\<lparr>elements := elements s @
         [\<lparr>heading = title g,
           websites_el = (if expanded g then Some (websites g) else None)\<rparr>],
       children := children s @ [length (elements s)]\<rparr>"

text \<open>
  \<^verbatim>\<open>displayAllGroups\<close> empties the container and displays each group in turn.
\<close>

definition displayAllGroups :: "group list \<Rightarrow> popup \<Rightarrow> popup" where
  "displayAllGroups gs s = fold displayGroup gs (s\<lparr>children := []\<rparr>)"

text \<open>\<^verbatim>\<open>groupDiv.querySelector('.websites')\<close> for a reference \<open>d\<close>.\<close>

definition querySelector_websites :: "popup \<Rightarrow> nat \<Rightarrow> jsstring list option" where
  "querySelector_websites s d =
     (if d < length (elements s) then websites_el (elements s ! d) else None)"

definition set_websites_el :: "nat \<Rightarrow> jsstring list \<Rightarrow> popup \<Rightarrow> popup" where
  "set_websites_el d items s =
     s\<lparr>elements := (elements s)[d := (elements s ! d)\<lparr>websites_el := Some items\<rparr>]\<rparr>"

text \<open>\<^verbatim>\<open>parent.removeChild(parent.children[i])\<close> for a child that exists.\<close>

definition removeChildAt :: "nat \<Rightarrow> 'a list \<Rightarrow> 'a list" where
  "removeChildAt i xs = take i xs @ drop (Suc i) xs"

text \<open>\<^verbatim>\<open>addGroup\<close> reads the title from the input field and clears the field.\<close>

definition addGroup :: "popup \<Rightarrow> popup" where
  "addGroup s =
     (let t = trim (newGroupTitle s);
          s1 = s\<lparr>newGroupTitle := []\<rparr>
      in if t \<noteq> [] then
           (let groupExists = list_ex (\<lambda>g. title g = t) (groups s1)
            in if \<not> groupExists then
                 (let s2 = s1\<lparr>groups := groups s1 @
                             [\<lparr>title = t, websites = [], active = True, expanded = True\<rparr>]\<rparr>;
                      s3 = displayGroup (last (groups s2)) s2
                  in saveGroups s3)
               else showMessage (js ''Group already exists'') False s1)
         else s1)"

text \<open>
  \<^verbatim>\<open>removeGroup\<close>: the splice comes first; \<^verbatim>\<open>removeChild\<close> throws a \<^verbatim>\<open>TypeError\<close> when
  \<^verbatim>\<open>children[groupIndex]\<close> is \<^verbatim>\<open>undefined\<close>, and then nothing is saved.
\<close>

definition removeGroup :: "jsstring \<Rightarrow> popup \<Rightarrow> outcome \<times> popup" where
  "removeGroup groupTitle s =
     (let groupIndex = findIndex (\<lambda>g. title g = groupTitle) (groups s);
          s1 = s\<lparr>groups := array_splice (groups s) groupIndex 1\<rparr>
      in case element_at (children s1) groupIndex of
           None \<Rightarrow> (Thrown TypeError, s1)
         | Some d \<Rightarrow>
             (Returned,
              saveGroups (s1\<lparr>children := removeChildAt (nat groupIndex) (children s1)\<rparr>)))"

text \<open>
  \<^verbatim>\<open>addWebsiteToGroup\<close>: \<^verbatim>\<open>groups[groupIndex].websites\<close> throws when no group has the
  title; after the push, \<^verbatim>\<open>appendChild\<close> throws when the \<^verbatim>\<open>div\<close> has no website
  container.
\<close>

definition addWebsiteToGroup :: "jsstring \<Rightarrow> jsstring \<Rightarrow> nat \<Rightarrow> popup \<Rightarrow> outcome \<times> popup" where
  "addWebsiteToGroup website groupTitle groupDiv s =
     (let groupIndex = findIndex (\<lambda>g. title g = groupTitle) (groups s)
      in case element_at (groups s) groupIndex of
           None \<Rightarrow> (Thrown TypeError, s)
         | Some g \<Rightarrow>
             if \<not> array_includes (websites g) website then
               (let g' = g\<lparr>websites := websites g @ [website]\<rparr>;
                    s1 = s\<lparr>groups := (groups s)[nat groupIndex := g']\<rparr>
                in case querySelector_websites s1 groupDiv of
                     None \<Rightarrow> (Thrown TypeError, s1)
                   | Some items \<Rightarrow>
                       (Returned, saveGroups (set_websites_el groupDiv (items @ [website]) s1)))
             else
               (Returned,
                s\<lparr>logged := logged s @ [js ''Website already exists in the group'']\<rparr>))"

text \<open>
  \<^verbatim>\<open>removeWebsiteFromGroup\<close>: the splice on the group's array comes first, then the DOM
  is read through \<^verbatim>\<open>groupsContainer.children[groupIndex]\<close>; each read of a missing
  element throws a \<^verbatim>\<open>TypeError\<close> before \<^verbatim>\<open>saveGroups\<close> is reached.
\<close>

definition removeWebsiteFromGroup :: "jsstring \<Rightarrow> jsstring \<Rightarrow> popup \<Rightarrow> outcome \<times> popup" where
  "removeWebsiteFromGroup groupTitle website s =
     (let groupIndex = findIndex (\<lambda>g. title g = groupTitle) (groups s)
      in case element_at (groups s) groupIndex of
           None \<Rightarrow> (Thrown TypeError, s)
         | Some g \<Rightarrow>
             (let websiteIndex = indexOf (websites g) website;
                  g' = g\<lparr>websites := array_splice (websites g) websiteIndex 1\<rparr>;
                  s1 = s\<lparr>groups := (groups s)[nat groupIndex := g']\<rparr>
              in case element_at (children s1) groupIndex of
                   None \<Rightarrow> (Thrown TypeError, s1)
                 | Some d \<Rightarrow>
                     (case querySelector_websites s1 d of
                        None \<Rightarrow> (Thrown TypeError, s1)
                      | Some items \<Rightarrow>
                          (case element_at items websiteIndex of
                             None \<Rightarrow> (Thrown TypeError, s1)
                           | Some item \<Rightarrow>
                               (Returned,
                                saveGroups
                                  (set_websites_el d (removeChildAt (nat websiteIndex) items)
                                     s1))))))"

section \<open>popup.js: validating and normalizing a URL\<close>

text \<open>
  Both functions start with
  \<^verbatim>\<open>new URL(url.includes('://') ? url : `http://${url}`)\<close>.
\<close>

definition with_scheme :: "jsstring \<Rightarrow> jsstring" where
  "with_scheme url = (if string_includes url (js ''://'') then url else js ''http://'' @ url)"

text \<open>
  The \<^verbatim>\<open>URL\<close> constructor belongs to the browser. It is a parameter of the two
  functions: \<open>hostname_of s\<close> is the \<^verbatim>\<open>hostname\<close> of \<^verbatim>\<open>new URL(s)\<close>, and \<open>None\<close> when
  the constructor throws its \<^verbatim>\<open>TypeError\<close>.
\<close>

type_synonym url_parser = "jsstring \<Rightarrow> jsstring option"

text \<open>
  The pattern \<^verbatim>\<open>/^(?!:\/\/)([a-zA-Z0-9-_]+\.)+[a-zA-Z]{2,11}$/\<close>. The class
  \<^verbatim>\<open>[a-zA-Z0-9-_]\<close> holds the letters, the digits, the hyphen and the underscore. The
  lookahead \<^verbatim>\<open>(?!:\/\/)\<close> at the start refuses a string that begins with \<^verbatim>\<open>://\<close>.
\<close>

definition label_class :: regex where
  "label_class = Class [(0x61, 0x7A), (0x41, 0x5A), (0x30, 0x39), (0x2D, 0x2D), (0x5F, 0x5F)]"

definition letter_class :: regex where
  "letter_class = Class [(0x61, 0x7A), (0x41, 0x5A)]"

definition dot :: regex where
  "dot = Class [(0x2E, 0x2E)]"

definition domainPattern :: regex where
  "domainPattern =
     Seq (one_or_more (Seq (one_or_more label_class) dot)) (between 2 11 letter_class)"

definition domainPattern_test :: "jsstring \<Rightarrow> bool" where
  "domainPattern_test hostname =
     (\<not> startsWith hostname (js ''://'') \<and> matches domainPattern hostname)"

text \<open>\<^verbatim>\<open>isValidUrl\<close>: the \<^verbatim>\<open>catch\<close> turns the constructor's exception into \<^verbatim>\<open>false\<close>.\<close>

definition isValidUrl :: "url_parser \<Rightarrow> jsstring \<Rightarrow> bool" where
  "isValidUrl hostname_of url =
     (case hostname_of (with_scheme url) of
        None \<Rightarrow> False
      | Some hostname \<Rightarrow> domainPattern_test hostname)"

text \<open>\<^verbatim>\<open>getBaseUrl\<close> has no \<^verbatim>\<open>try\<close>: the constructor's exception leaves the function.\<close>

definition getBaseUrl :: "url_parser \<Rightarrow> jsstring \<Rightarrow> js_error + jsstring" where
  "getBaseUrl hostname_of url =
     (case hostname_of (with_scheme url) of
        None \<Rightarrow> Inl TypeError
      | Some hostname \<Rightarrow>
          (let hostnameParts = split_on 0x2E hostname;
               baseUrl = join (js ''.'') (slice_from hostnameParts (- 2))
           in Inr baseUrl))"

section \<open>What the specification says a domain name is\<close>

text \<open>
  The specification's wording of the accepted hostnames: one or more segments, each a
  label followed by a dot, then an alphabetic top-level segment of 2 to 11 letters. A
  label is a non-empty string of letters, digits, hyphens and underscores.
\<close>

definition domain_label :: "jsstring \<Rightarrow> bool" where
  "domain_label l \<longleftrightarrow>
     l \<noteq> [] \<and>
     (\<forall>c \<in> set l.
        in_class [(0x61, 0x7A), (0x41, 0x5A), (0x30, 0x39), (0x2D, 0x2D), (0x5F, 0x5F)] c)"

definition top_level :: "jsstring \<Rightarrow> bool" where
  "top_level t \<longleftrightarrow>
     2 \<le> length t \<and> length t \<le> 11 \<and>
     (\<forall>c \<in> set t. in_class [(0x61, 0x7A), (0x41, 0x5A)] c)"

definition domain_name :: "jsstring \<Rightarrow> bool" where
  "domain_name h \<longleftrightarrow>
     (\<exists>labels t. labels \<noteq> [] \<and> (\<forall>l \<in> set labels. domain_label l) \<and> top_level t
        \<and> h = concat (map (\<lambda>l. l @ js ''.'') labels) @ t)"

text \<open>
  The specification's wording "a scheme is present": the input starts with a scheme, a
  letter followed by letters, digits, \<^verbatim>\<open>+\<close>, \<^verbatim>\<open>-\<close> and \<^verbatim>\<open>.\<close>, and a colon after it.
\<close>

definition scheme_present :: "jsstring \<Rightarrow> bool" where
  "scheme_present raw \<longleftrightarrow>
     (\<exists>scheme rest. raw = scheme @ js '':'' @ rest \<and> scheme \<noteq> []
        \<and> in_class [(0x61, 0x7A), (0x41, 0x5A)] (hd scheme)
        \<and> (\<forall>c \<in> set scheme.
              in_class [(0x61, 0x7A), (0x41, 0x5A), (0x30, 0x39), (0x2B, 0x2B), (0x2D, 0x2E)] c))"

text \<open>The language of a regular expression, against which the matcher is proved.\<close>

definition conc :: "jsstring set \<Rightarrow> jsstring set \<Rightarrow> jsstring set" where
  "conc A B = {u @ v | u v. u \<in> A \<and> v \<in> B}"

inductive_set star :: "jsstring set \<Rightarrow> jsstring set" for A :: "jsstring set" where
  star_nil: "[] \<in> star A"
| star_step: "u \<in> A \<Longrightarrow> v \<in> star A \<Longrightarrow> u @ v \<in> star A"

primrec lang :: "regex \<Rightarrow> jsstring set" where
  "lang Fail = {}"
| "lang Empty = {[]}"
| "lang (Class ranges) = {[c] | c. in_class ranges c}"
| "lang (Seq r1 r2) = conc (lang r1) (lang r2)"
| "lang (Alt r1 r2) = lang r1 \<union> lang r2"
| "lang (Star r) = star (lang r)"

section \<open>Concrete inputs\<close>

text \<open>Groups, a blocker state and a popup used as concrete inputs below.\<close>

definition focus_group :: group where
  "focus_group =
     \<lparr>title = js ''Focus'', websites = [js ''reddit.com''], active = True, expanded = True\<rparr>"

definition evening_group :: group where
  "evening_group =
     \<lparr>title = js ''Evening'', websites = [js ''reddit.com''], active = True, expanded = False\<rparr>"

definition work_group :: group where
  "work_group = \<lparr>title = js ''Work'', websites = [], active = True, expanded = True\<rparr>"

definition social_group :: group where
  "social_group =
     \<lparr>title = js ''Social'', websites = [js ''reddit.com'', js ''twitter.com''],
      active = True, expanded = True\<rparr>"

text \<open>The blocker after it has installed the patterns of \<open>focus_group\<close>.\<close>

definition installed_focus :: background where
  "installed_focus =
     \<lparr>currentListener = Some 0,
      registered = [(0, compile [focus_group])],
      closures = 1,
      calls = [AddListener 0 (compile [focus_group])],
      console = []\<rparr>"

text \<open>
  What the browser's \<^verbatim>\<open>URL\<close> constructor gives as \<^verbatim>\<open>hostname\<close> for the strings used
  below. In \<^verbatim>\<open>mailto:me@example.com\<close> nothing is a host; in
  \<^verbatim>\<open>http://mailto:me@example.com\<close> the part before \<^verbatim>\<open>@\<close> is read as user name and
  password. The constructor refuses \<^verbatim>\<open>http://not a url\<close> (a host holds no space), as
  the table does.
\<close>

definition hostname_table :: url_parser where
  "hostname_table =
     [js ''http://example.com'' \<mapsto> js ''example.com'',
      js ''https://example.com/'' \<mapsto> js ''example.com'',
      js ''http://example.co.uk'' \<mapsto> js ''example.co.uk'',
      js ''https://sub.example.com/path'' \<mapsto> js ''sub.example.com'',
      js ''mailto:me@example.com'' \<mapsto> [],
      js ''http://mailto:me@example.com'' \<mapsto> js ''example.com'']"

text \<open>
  The popup once \<^verbatim>\<open>DOMContentLoaded\<close> has been handled, when the storage area holds the
  groups \<open>gs\<close>: they are loaded into \<^verbatim>\<open>groups\<close> and displayed.
\<close>

definition opened :: "group list \<Rightarrow> popup" where
  "opened gs =
     displayAllGroups gs
       \<lparr>groups = gs, elements = [], children = [], newGroupTitle = [], messages = [],
        logged = [], storage = [js ''groups'' \<mapsto> groups_val gs], set_calls = 0\<rparr>"

chapter \<open>Properties\<close>

section \<open>The pattern compiler\<close>

lemma set_urlPatterns:
  "set (urlPatterns sites) = (\<Union>w \<in> set sites. {exactPattern w, subdomainPattern w})"
  by (induction sites) (auto simp: urlPatterns_def)

lemma length_urlPatterns: "length (urlPatterns sites) = 2 * length sites"
  by (induction sites) (simp_all add: urlPatterns_def)

lemma set_blockedWebsites:
  "set (blockedWebsites gs) = (\<Union>g \<in> {g \<in> set gs. active g}. set (websites g))"
  by (auto simp: blockedWebsites_def)

lemma length_blockedWebsites:
  "length (blockedWebsites gs) = (\<Sum>g\<leftarrow>filter active gs. length (websites g))"
  by (simp add: blockedWebsites_def length_concat comp_def)

lemma compile_list:
  "compile gs =
     concat (map (\<lambda>g. concat (map (\<lambda>w. [js ''*://'' @ w @ js ''/*'', js ''*://*.'' @ w @ js ''/*''])
                                 (websites g)))
                 (filter active gs))"
  by (induction gs)
    (simp_all add: compile_def blockedWebsites_def urlPatterns_def exactPattern_def
      subdomainPattern_def)

text \<open>
  Claim C1, as the code has it. The compiled list is, for each active group in order and
  for each website \<open>w\<close> of it in order, the pattern \<^verbatim>\<open>*://w/*\<close> of \<open>w\<close> itself followed by
  the pattern \<^verbatim>\<open>*://*.w/*\<close> of its subdomains, and nothing else. The list is not
  deduplicated: it has two entries for every website entry of every active group, so a
  website listed by two active groups contributes its two patterns twice.
\<close>

theorem compile_patterns:
  "compile gs =
     concat (map (\<lambda>g. concat (map (\<lambda>w. [js ''*://'' @ w @ js ''/*'', js ''*://*.'' @ w @ js ''/*''])
                                 (websites g)))
                 (filter active gs))
   \<and> length (compile gs) = 2 * (\<Sum>g\<leftarrow>filter active gs. length (websites g))"
proof (intro conjI)
  show "length (compile gs) = 2 * (\<Sum>g\<leftarrow>filter active gs. length (websites g))"
    unfolding compile_def by (simp add: length_urlPatterns length_blockedWebsites)
qed (rule compile_list)

theorem compile_patterns_witness:
  "compile [focus_group, evening_group] =
     [js ''*://reddit.com/*'', js ''*://*.reddit.com/*'',
      js ''*://reddit.com/*'', js ''*://*.reddit.com/*'']
   \<and> length (compile [focus_group, evening_group]) = 4"
  using compile_patterns [of "[focus_group, evening_group]"]
  by (simp add: focus_group_def evening_group_def js_def)

text \<open>
  The claim as written asks for set semantics. Two active groups that both list
  \<^verbatim>\<open>reddit.com\<close> give a list in which each pattern occurs twice.
\<close>

theorem compile_duplicates_counterexample:
  "\<not> distinct (compile [focus_group, evening_group])"
  by (simp add: compile_def blockedWebsites_def urlPatterns_def focus_group_def
      evening_group_def)

section \<open>The blocker's transitions\<close>

text \<open>
  Claim C2, as the code has it. When a rule is installed and a change event compiles a
  non-empty pattern list, the blocker removes the installed listener and registers a new
  closure for the new patterns, whether or not the patterns differ from the installed ones.
\<close>

theorem reinstall_when_installed:
  assumes "currentListener s = Some f"
    and "registered s = [(f, P)]"
    and "blockedWebsites gs \<noteq> []"
  shows "loadAndBlockWebsites (Some gs) s =
           s\<lparr>currentListener := Some (closures s),
             registered := [(closures s, compile gs)],
             closures := Suc (closures s),
             calls := calls s @ [RemoveListener f, AddListener (closures s) (compile gs)]\<rparr>"
  using assms
  by (simp add: loadAndBlockWebsites_def removeListener_def addListener_def compile_def Let_def)

theorem reinstall_when_installed_witness:
  "loadAndBlockWebsites (Some [focus_group]) installed_focus =
     installed_focus\<lparr>currentListener := Some 1,
       registered := [(1, compile [focus_group])],
       closures := 2,
       calls := [AddListener 0 (compile [focus_group]), RemoveListener 0,
                 AddListener 1 (compile [focus_group])]\<rparr>"
  using reinstall_when_installed [of installed_focus 0 "compile [focus_group]" "[focus_group]"]
  by (simp add: installed_focus_def blockedWebsites_def focus_group_def)

text \<open>
  The claim as written: with the patterns unchanged nothing is uninstalled or installed.
  Here the installed patterns are those of the stored groups, and the event still makes
  one \<^verbatim>\<open>removeListener\<close> and one \<^verbatim>\<open>addListener\<close> call and replaces the listener.
\<close>

theorem unchanged_patterns_counterexample:
  "registered installed_focus = [(0, compile [focus_group])]
   \<and> compile [focus_group] \<noteq> []
   \<and> calls (loadAndBlockWebsites (Some [focus_group]) installed_focus) =
       calls installed_focus @ [RemoveListener 0, AddListener 1 (compile [focus_group])]
   \<and> currentListener (loadAndBlockWebsites (Some [focus_group]) installed_focus) \<noteq>
       currentListener installed_focus"
  by (simp add: loadAndBlockWebsites_def removeListener_def addListener_def compile_def
      blockedWebsites_def urlPatterns_def installed_focus_def focus_group_def Let_def)

section \<open>Array and string operations\<close>

lemma findIndex_none: "(\<forall>x \<in> set xs. \<not> P x) \<Longrightarrow> findIndex P xs = - 1"
  by (induction xs) (auto simp: Let_def)

lemma findIndex_first:
  "(\<forall>x \<in> set pre. \<not> P x) \<Longrightarrow> P x \<Longrightarrow> findIndex P (pre @ x # post) = int (length pre)"
  by (induction pre) (auto simp: Let_def)

lemma indexOf_absent: "w \<notin> set ws \<Longrightarrow> indexOf ws w = - 1"
  unfolding indexOf_def by (rule findIndex_none) auto

lemma splice_one_at:
  "array_splice (pre @ x # post) (int (length pre)) (Suc 0) = pre @ post"
  by (simp add: array_splice_def Let_def)

lemma splice_one_last: "array_splice xs (- 1) (Suc 0) = butlast xs"
  by (cases xs rule: rev_cases) (simp_all add: array_splice_def Let_def)

lemma element_at_middle: "element_at (pre @ x # post) (int (length pre)) = Some x"
  by (simp add: element_at_def)

lemma element_at_minus_one: "element_at xs (- 1) = None"
  by (simp add: element_at_def)

lemma slice_from_last_two: "slice_from xs (- 2) = drop (length xs - 2) xs"
  by (auto simp: slice_from_def Let_def max_def nat_diff_distrib'
      intro: arg_cong [where f = "\<lambda>n. drop n xs"])

lemma trim_blank: "(\<forall>c \<in> set v. white_space c) \<Longrightarrow> trim v = []"
proof -
  assume "\<forall>c \<in> set v. white_space c"
  then have "dropWhile white_space v = []"
    by simp
  then show ?thesis
    by (simp add: trim_def del: dropWhile_eq_Nil_conv)
qed

lemma startsWith_iff: "startsWith s p \<longleftrightarrow> (\<exists>v. s = p @ v)"
  unfolding startsWith_def
  by (metis append_eq_conv_conj append_take_drop_id)

text \<open>\<^verbatim>\<open>includes\<close> on strings finds a substring.\<close>

lemma string_includes_iff: "string_includes s p \<longleftrightarrow> (\<exists>u v. s = u @ p @ v)"
proof (induction s)
  case Nil
  show ?case by auto
next
  case (Cons c cs)
  show ?case
  proof
    assume "string_includes (c # cs) p"
    then consider "startsWith (c # cs) p" | "string_includes cs p"
      by auto
    then show "\<exists>u v. c # cs = u @ p @ v"
    proof cases
      case 1
      then obtain v where "c # cs = [] @ p @ v"
        unfolding startsWith_iff by auto
      then show ?thesis by (intro exI)
    next
      case 2
      then obtain u v where "cs = u @ p @ v"
        unfolding Cons by (elim exE)
      then have "c # cs = (c # u) @ p @ v"
        by simp
      then show ?thesis by (intro exI)
    qed
  next
    assume "\<exists>u v. c # cs = u @ p @ v"
    then obtain u v where uv: "c # cs = u @ p @ v"
      by (elim exE)
    show "string_includes (c # cs) p"
    proof (cases u)
      case Nil
      with uv have "startsWith (c # cs) p"
        unfolding startsWith_iff by auto
      then show ?thesis by simp
    next
      case (Cons a u')
      with uv have "cs = u' @ p @ v"
        by simp
      then have "\<exists>u v. cs = u @ p @ v"
        by (intro exI)
      then have "string_includes cs p"
        unfolding Cons.IH .
      then show ?thesis by simp
    qed
  qed
qed

text \<open>Splitting a joined list of parts gives the parts back.\<close>

lemma split_on_not_Nil: "split_on sep s \<noteq> []"
  by (induction s) (auto split: list.splits)

lemma split_on_no_sep: "sep \<notin> set l \<Longrightarrow> split_on sep l = [l]"
  by (induction l) auto

lemma split_on_append_sep:
  "sep \<notin> set l \<Longrightarrow> split_on sep (l @ sep # rest) = l # split_on sep rest"
  by (induction l) (auto simp: split_on_not_Nil split: list.splits)

lemma split_on_join:
  "labels \<noteq> [] \<Longrightarrow> (\<forall>l \<in> set labels. sep \<notin> set l) \<Longrightarrow>
     split_on sep (join [sep] labels) = labels"
  by (induction "[sep]" labels rule: join.induct)
    (simp_all add: split_on_no_sep split_on_append_sep)

text \<open>Joining the parts of a split string gives the string back.\<close>

lemma split_on_sep_free: "\<forall>l \<in> set (split_on sep s). sep \<notin> set l"
  by (induction s) (auto split: list.splits)

lemma join_Cons_part:
  "join sep ((c # part) # parts) = c # join sep (part # parts)"
  by (cases parts) simp_all

lemma join_Nil_part: "parts \<noteq> [] \<Longrightarrow> join sep ([] # parts) = sep @ join sep parts"
  by (cases parts) simp_all

lemma join_split_on: "join [sep] (split_on sep s) = s"
  by (induction s) (auto simp: join_Cons_part join_Nil_part split_on_not_Nil split: list.splits)

section \<open>Loading the groups\<close>

text \<open>
  Claim C4, as the code has it. \<^verbatim>\<open>loadGroups\<close> gives the empty array when the key is
  absent or its stored value is falsy (\<^verbatim>\<open>null\<close>, \<^verbatim>\<open>false\<close>, \<^verbatim>\<open>0\<close>, the empty
  string); any other stored value is returned as it is, without a check of its shape. A
  stored array of groups is therefore returned unchanged.
\<close>

theorem loadGroups_result:
  "loadGroups area =
     (case area (js ''groups'') of
        None \<Rightarrow> JArr []
      | Some v \<Rightarrow> if truthy v then v else JArr [])
   \<and> (area (js ''groups'') = Some (groups_val gs) \<longrightarrow> loadGroups area = groups_val gs)"
  by (simp add: loadGroups_def loadGroups_of_def storage_get_def groups_val_def
      split: option.splits)

theorem loadGroups_result_witness:
  "loadGroups Map.empty = JArr []
   \<and> loadGroups [js ''groups'' \<mapsto> JNum 0] = JArr []
   \<and> loadGroups [js ''groups'' \<mapsto> groups_val [work_group]] = groups_val [work_group]"
  using loadGroups_result [of Map.empty "[]"]
    loadGroups_result [of "[js ''groups'' \<mapsto> JNum 0]" "[]"]
    loadGroups_result [of "[js ''groups'' \<mapsto> groups_val [work_group]]" "[work_group]"]
  by (simp add: groups_val_def)

text \<open>
  The claim as written: a malformed stored value gives the empty sequence. A stored
  string is not a sequence of groups, and \<^verbatim>\<open>loadGroups\<close> returns it.
\<close>

theorem loadGroups_malformed_counterexample:
  "loadGroups [js ''groups'' \<mapsto> JStr (js ''corrupt'')] = JStr (js ''corrupt'')
   \<and> loadGroups [js ''groups'' \<mapsto> JStr (js ''corrupt'')] \<noteq> JArr []"
  by (simp add: loadGroups_def loadGroups_of_def storage_get_def js_def)

text \<open>What \<^verbatim>\<open>saveGroups\<close> stores is what \<^verbatim>\<open>loadGroups\<close> reads back.\<close>

lemma loadGroups_saveGroups: "loadGroups (storage (saveGroups s)) = groups_val (groups s)"
  by (simp add: saveGroups_def loadGroups_def loadGroups_of_def storage_get_def groups_val_def)

section \<open>Removing a group\<close>

lemma removeGroup_found:
  assumes "groups s = pre @ g # post" and "title g = t"
    and "\<forall>h \<in> set pre. title h \<noteq> t"
    and "length pre < length (children s)"
  shows "removeGroup t s =
           (Returned,
            saveGroups (s\<lparr>groups := pre @ post,
                          children := removeChildAt (length pre) (children s)\<rparr>))"
proof -
  have i: "findIndex (\<lambda>g. title g = t) (groups s) = int (length pre)"
    using assms by (simp add: findIndex_first)
  have "element_at (children s) (int (length pre)) = Some (children s ! length pre)"
    using assms by (simp add: element_at_def)
  with assms(1) i show ?thesis
    by (simp add: removeGroup_def Let_def splice_one_at)
qed

lemma removeGroup_absent:
  assumes "\<forall>h \<in> set (groups s). title h \<noteq> t"
  shows "removeGroup t s = (Thrown TypeError, s\<lparr>groups := butlast (groups s)\<rparr>)"
proof -
  have "findIndex (\<lambda>g. title g = t) (groups s) = - 1"
    using assms by (simp add: findIndex_none)
  then show ?thesis
    by (simp add: removeGroup_def Let_def element_at_minus_one splice_one_last)
qed

text \<open>
  Claim C3, as the code has it. When a group with title \<open>t\<close> exists (and its \<^verbatim>\<open>div\<close> is
  among the container's children), \<^verbatim>\<open>removeGroup\<close> removes the first group with that
  title, keeps the others in order and saves the result. When no group has title \<open>t\<close>
  the call does not signal a no-op: it ends in a \<^verbatim>\<open>TypeError\<close>, makes no save and leaves
  the stored collection as it was.
\<close>

theorem removeGroup_behaviour:
  "(groups s = pre @ g # post \<and> title g = t \<and> (\<forall>h \<in> set pre. title h \<noteq> t)
      \<and> length pre < length (children s)
    \<longrightarrow> removeGroup t s =
          (Returned,
           saveGroups (s\<lparr>groups := pre @ post,
                         children := removeChildAt (length pre) (children s)\<rparr>)))
   \<and> ((\<forall>h \<in> set (groups s). title h \<noteq> t)
    \<longrightarrow> fst (removeGroup t s) = Thrown TypeError
        \<and> storage (snd (removeGroup t s)) = storage s
        \<and> set_calls (snd (removeGroup t s)) = set_calls s)"
  using removeGroup_found [of s pre g post t] removeGroup_absent [of s t]
  by simp

theorem removeGroup_behaviour_witness:
  "fst (removeGroup (js ''Work'') (opened [social_group, work_group, focus_group])) = Returned
   \<and> groups (snd (removeGroup (js ''Work'') (opened [social_group, work_group, focus_group]))) =
       [social_group, focus_group]
   \<and> storage (snd (removeGroup (js ''Work'') (opened [social_group, work_group, focus_group])))
         (js ''groups'') = Some (groups_val [social_group, focus_group])
   \<and> fst (removeGroup (js ''Gone'') (opened [work_group])) = Thrown TypeError
   \<and> storage (snd (removeGroup (js ''Gone'') (opened [work_group]))) =
       storage (opened [work_group])
   \<and> set_calls (snd (removeGroup (js ''Gone'') (opened [work_group]))) = 0"
proof -
  let ?s = "opened [social_group, work_group, focus_group]"
  have "groups ?s = [social_group] @ work_group # [focus_group]
      \<and> title work_group = js ''Work''
      \<and> (\<forall>h \<in> set [social_group]. title h \<noteq> js ''Work'')
      \<and> length [social_group] < length (children ?s)"
    by (simp add: opened_def displayAllGroups_def displayGroup_def work_group_def
        social_group_def js_def)
  with removeGroup_behaviour [of ?s "[social_group]" work_group "[focus_group]" "js ''Work''"]
  have found: "removeGroup (js ''Work'') ?s =
      (Returned, saveGroups (?s\<lparr>groups := [social_group] @ [focus_group],
         children := removeChildAt (length [social_group]) (children ?s)\<rparr>))"
    by blast
  have "\<forall>h \<in> set (groups (opened [work_group])). title h \<noteq> js ''Gone''"
    by (simp add: opened_def displayAllGroups_def displayGroup_def work_group_def js_def)
  with removeGroup_behaviour [of "opened [work_group]" "[]" work_group "[]" "js ''Gone''"]
  have absent: "fst (removeGroup (js ''Gone'') (opened [work_group])) = Thrown TypeError
      \<and> storage (snd (removeGroup (js ''Gone'') (opened [work_group]))) =
          storage (opened [work_group])
      \<and> set_calls (snd (removeGroup (js ''Gone'') (opened [work_group]))) =
          set_calls (opened [work_group])"
    by blast
  have "set_calls (opened [work_group]) = 0"
    by (simp add: opened_def displayAllGroups_def displayGroup_def)
  with absent show ?thesis
    by (simp add: found saveGroups_def)
qed

text \<open>
  The claim as written: with no group of that title the collection is unchanged. Here
  the only group is \<^verbatim>\<open>Work\<close>, and removing \<^verbatim>\<open>Gone\<close> leaves no group in memory:
  \<^verbatim>\<open>findIndex\<close> gives \<open>-1\<close>, and \<^verbatim>\<open>splice(-1, 1)\<close> drops the last group.
\<close>

theorem removeGroup_absent_counterexample:
  "title work_group \<noteq> js ''Gone''
   \<and> groups (opened [work_group]) = [work_group]
   \<and> groups (snd (removeGroup (js ''Gone'') (opened [work_group]))) = []"
  by (simp add: removeGroup_def opened_def displayAllGroups_def displayGroup_def
      work_group_def js_def array_splice_def element_at_def Let_def)

section \<open>Adding a group\<close>

lemma addGroup_duplicate:
  assumes "trim (newGroupTitle s) = t" and "t \<noteq> []"
    and "\<exists>g \<in> set (groups s). title g = t"
  shows "addGroup s =
           s\<lparr>newGroupTitle := [],
             messages := messages s @ [(js ''Group already exists'', False)]\<rparr>"
  using assms by (auto simp: addGroup_def Let_def list_ex_iff showMessage_def)

lemma addGroup_fresh:
  assumes "trim (newGroupTitle s) = t" and "t \<noteq> []"
    and "\<not> (\<exists>g \<in> set (groups s). title g = t)"
  shows "addGroup s =
           saveGroups
             (displayGroup \<lparr>title = t, websites = [], active = True, expanded = True\<rparr>
                (s\<lparr>newGroupTitle := [],
                   groups := groups s @
                     [\<lparr>title = t, websites = [], active = True, expanded = True\<rparr>]\<rparr>))"
  using assms by (auto simp: addGroup_def Let_def list_ex_iff)

text \<open>
  Claim C9. When the input is empty or holds white space only, the trimmed title is
  empty and \<^verbatim>\<open>addGroup\<close> does nothing but clear the input field: the groups, the
  storage area, the number of saves and the messages shown are as before.
\<close>

theorem addGroup_blank:
  "(\<forall>c \<in> set (newGroupTitle s). white_space c) \<Longrightarrow> addGroup s = s\<lparr>newGroupTitle := []\<rparr>"
  by (simp add: addGroup_def trim_blank)

theorem addGroup_blank_witness:
  "addGroup ((opened [work_group])\<lparr>newGroupTitle := [0x20, 0x9, 0x3000]\<rparr>) =
     opened [work_group]"
  using addGroup_blank [of "(opened [work_group])\<lparr>newGroupTitle := [0x20, 0x9, 0x3000]\<rparr>"]
  by (simp add: white_space_def opened_def displayAllGroups_def displayGroup_def)

text \<open>
  Claim C7. For an input whose trimmed title \<open>t\<close> is not empty: when a group with title
  \<open>t\<close> exists, \<^verbatim>\<open>addGroup\<close> changes nothing but the input field and the message shown
  (\<^verbatim>\<open>Group already exists\<close>): groups, DOM and storage stay as they are and nothing is
  saved. Otherwise it appends the group \<open>t\<close> with no websites, active and expanded, and
  saves the collection.
\<close>

theorem addGroup_titled:
  "trim (newGroupTitle s) = t \<and> t \<noteq> [] \<longrightarrow>
     ((\<exists>g \<in> set (groups s). title g = t) \<longrightarrow>
        addGroup s = s\<lparr>newGroupTitle := [],
                       messages := messages s @ [(js ''Group already exists'', False)]\<rparr>)
   \<and> (\<not> (\<exists>g \<in> set (groups s). title g = t) \<longrightarrow>
        groups (addGroup s) =
          groups s @ [\<lparr>title = t, websites = [], active = True, expanded = True\<rparr>]
        \<and> storage (addGroup s) (js ''groups'') = Some (groups_val (groups (addGroup s)))
        \<and> set_calls (addGroup s) = Suc (set_calls s))"
proof (cases "\<exists>g \<in> set (groups s). title g = t")
  case True
  then show ?thesis
    using addGroup_duplicate [of s t] by simp
next
  case False
  have "groups (addGroup s) =
      groups s @ [\<lparr>title = t, websites = [], active = True, expanded = True\<rparr>]
    \<and> storage (addGroup s) (js ''groups'') = Some (groups_val (groups (addGroup s)))
    \<and> set_calls (addGroup s) = Suc (set_calls s)"
    if "trim (newGroupTitle s) = t" and "t \<noteq> []"
    unfolding addGroup_fresh [OF that False]
    by (simp add: saveGroups_def displayGroup_def)
  with False show ?thesis
    by simp
qed

theorem addGroup_titled_witness:
  "addGroup ((opened [work_group])\<lparr>newGroupTitle := js ''Work''\<rparr>) =
     (opened [work_group])\<lparr>messages := [(js ''Group already exists'', False)]\<rparr>
   \<and> groups (addGroup ((opened [])\<lparr>newGroupTitle := js ''Work''\<rparr>)) = [work_group]"
proof -
  let ?s = "(opened [work_group])\<lparr>newGroupTitle := js ''Work''\<rparr>"
  let ?e = "(opened [])\<lparr>newGroupTitle := js ''Work''\<rparr>"
  have w: "trim (js ''Work'') = js ''Work''"
    by (simp add: trim_def js_def white_space_def)
  have "trim (newGroupTitle ?s) = js ''Work'' \<and> js ''Work'' \<noteq> []"
    and "\<exists>g \<in> set (groups ?s). title g = js ''Work''"
    by (simp_all add: w opened_def displayAllGroups_def displayGroup_def work_group_def)
      (simp add: js_def)
  with addGroup_titled [of ?s "js ''Work''"]
  have dup: "addGroup ?s = ?s\<lparr>newGroupTitle := [],
      messages := messages ?s @ [(js ''Group already exists'', False)]\<rparr>"
    by blast
  have "trim (newGroupTitle ?e) = js ''Work'' \<and> js ''Work'' \<noteq> []"
    and "\<not> (\<exists>g \<in> set (groups ?e). title g = js ''Work'')"
    by (simp_all add: w opened_def displayAllGroups_def) (simp add: js_def)
  with addGroup_titled [of ?e "js ''Work''"]
  have new: "groups (addGroup ?e) = groups ?e @
      [\<lparr>title = js ''Work'', websites = [], active = True, expanded = True\<rparr>]"
    by blast
  show ?thesis
    by (simp add: dup new)
      (simp add: opened_def displayAllGroups_def displayGroup_def work_group_def)
qed

text \<open>
  The scenario of the claim: the same title is added twice. The first call leaves a
  group with that title (appended now, or there before), so the second call changes no
  group and shows the message.
\<close>

lemma addGroup_again:
  assumes "newGroupTitle s = v" and "trim v \<noteq> []"
  shows "groups (addGroup ((addGroup s)\<lparr>newGroupTitle := v\<rparr>)) = groups (addGroup s)"
    and "storage (addGroup ((addGroup s)\<lparr>newGroupTitle := v\<rparr>)) = storage (addGroup s)"
    and "messages (addGroup ((addGroup s)\<lparr>newGroupTitle := v\<rparr>)) =
           messages (addGroup s) @ [(js ''Group already exists'', False)]"
proof -
  let ?s1 = "(addGroup s)\<lparr>newGroupTitle := v\<rparr>"
  have "\<exists>g \<in> set (groups (addGroup s)). title g = trim v"
  proof (cases "\<exists>g \<in> set (groups s). title g = trim v")
    case True
    with assms show ?thesis
      by (simp add: addGroup_duplicate [of s "trim v"])
  next
    case False
    with assms show ?thesis
      by (simp add: addGroup_fresh [of s "trim v"] saveGroups_def displayGroup_def)
  qed
  then have "\<exists>g \<in> set (groups ?s1). title g = trim v"
    by simp
  with assms(2) have "addGroup ?s1 =
      ?s1\<lparr>newGroupTitle := [],
        messages := messages ?s1 @ [(js ''Group already exists'', False)]\<rparr>"
    by (intro addGroup_duplicate) simp_all
  then show "groups (addGroup ?s1) = groups (addGroup s)"
    and "storage (addGroup ?s1) = storage (addGroup s)"
    and "messages (addGroup ?s1) = messages (addGroup s) @ [(js ''Group already exists'', False)]"
    by simp_all
qed

section \<open>The container follows the groups\<close>

text \<open>
  The popup keeps one child of the container per group, in the order of the groups:
  this holds once the groups are displayed, and adding or removing a group keeps it. So
  the \<^verbatim>\<open>div\<close> of a group that exists is always there to remove.
\<close>

lemma fold_displayGroup:
  "groups (fold displayGroup gs s) = groups s
   \<and> length (children (fold displayGroup gs s)) = length (children s) + length gs"
  by (induction gs arbitrary: s) (simp_all add: displayGroup_def)

lemma opened_aligned:
  "groups (opened gs) = gs \<and> length (children (opened gs)) = length gs"
  by (simp add: opened_def displayAllGroups_def fold_displayGroup)

lemma addGroup_aligned:
  "length (children s) = length (groups s) \<Longrightarrow>
     length (children (addGroup s)) = length (groups (addGroup s))"
  by (simp add: addGroup_def Let_def showMessage_def saveGroups_def displayGroup_def)

lemma removeGroup_aligned:
  assumes "length (children s) = length (groups s)"
    and "\<exists>g \<in> set (groups s). title g = t"
  shows "fst (removeGroup t s) = Returned"
    and "length (children (snd (removeGroup t s))) = length (groups (snd (removeGroup t s)))"
proof -
  from assms(2) obtain pre g post where split: "groups s = pre @ g # post" "title g = t"
    "\<forall>h \<in> set pre. title h \<noteq> t"
    by (auto simp: split_list_first_prop_iff)
  with assms(1) have "length pre < length (children s)"
    by simp
  with split have "removeGroup t s =
      (Returned, saveGroups (s\<lparr>groups := pre @ post,
         children := removeChildAt (length pre) (children s)\<rparr>))"
    by (rule removeGroup_found)
  with assms(1) split(1) show "fst (removeGroup t s) = Returned"
    and "length (children (snd (removeGroup t s))) = length (groups (snd (removeGroup t s)))"
    by (simp_all add: saveGroups_def removeChildAt_def)
qed

section \<open>Removing a website\<close>

lemma querySelector_websites_groups:
  "querySelector_websites (s\<lparr>groups := gs\<rparr>) d = querySelector_websites s d"
  by (simp add: querySelector_websites_def)

text \<open>
  Claim C10. When the group's website array is not empty and does not hold \<open>w\<close>,
  \<^verbatim>\<open>indexOf\<close> gives \<open>-1\<close> and \<^verbatim>\<open>splice(-1, 1)\<close> removes the last website of the group
  (the first group with the title); the other groups are untouched.
\<close>

theorem removeWebsite_absent_removes_last:
  assumes "groups s = pre @ g # post" and "title g = t"
    and "\<forall>h \<in> set pre. title h \<noteq> t"
    and "websites g \<noteq> []" and "w \<notin> set (websites g)"
  shows "groups (snd (removeWebsiteFromGroup t w s)) =
           pre @ g\<lparr>websites := butlast (websites g)\<rparr> # post"
proof -
  have i: "findIndex (\<lambda>g. title g = t) (groups s) = int (length pre)"
    using assms by (simp add: findIndex_first)
  have j: "indexOf (websites g) w = - 1"
    using assms by (simp add: indexOf_absent)
  show ?thesis
    using assms(1) i j
    by (simp add: removeWebsiteFromGroup_def Let_def element_at_middle element_at_minus_one
        splice_one_last split: option.splits)
qed

theorem removeWebsite_absent_removes_last_witness:
  "groups (snd (removeWebsiteFromGroup (js ''Social'') (js ''example.com'')
                 (opened [work_group, social_group]))) =
     [work_group, social_group\<lparr>websites := [js ''reddit.com'']\<rparr>]"
  using removeWebsite_absent_removes_last [of "opened [work_group, social_group]"
      "[work_group]" social_group "[]" "js ''Social''" "js ''example.com''"]
  by (simp add: opened_def displayAllGroups_def displayGroup_def work_group_def
      social_group_def js_def)

text \<open>
  In that case the DOM read that follows (\<^verbatim>\<open>children[-1]\<close>) throws, and the change made
  in memory is not saved.
\<close>

lemma removeWebsite_absent_not_saved:
  assumes "groups s = pre @ g # post" and "title g = t"
    and "\<forall>h \<in> set pre. title h \<noteq> t"
    and "w \<notin> set (websites g)"
  shows "fst (removeWebsiteFromGroup t w s) = Thrown TypeError"
    and "storage (snd (removeWebsiteFromGroup t w s)) = storage s"
    and "set_calls (snd (removeWebsiteFromGroup t w s)) = set_calls s"
proof -
  have i: "findIndex (\<lambda>g. title g = t) (groups s) = int (length pre)"
    using assms by (simp add: findIndex_first)
  have j: "indexOf (websites g) w = - 1"
    using assms by (simp add: indexOf_absent)
  show "fst (removeWebsiteFromGroup t w s) = Thrown TypeError"
    and "storage (snd (removeWebsiteFromGroup t w s)) = storage s"
    and "set_calls (snd (removeWebsiteFromGroup t w s)) = set_calls s"
    using assms(1) i j
    by (simp_all add: removeWebsiteFromGroup_def Let_def element_at_middle element_at_minus_one
        split: option.splits)
qed

section \<open>Adding, then removing a website\<close>

text \<open>
  Claim C8. For a group \<open>t\<close> with no websites, \<^verbatim>\<open>addWebsiteToGroup\<close> puts \<open>w\<close> in the
  group and \<^verbatim>\<open>removeWebsiteFromGroup\<close> then takes it out again: the group collection is
  what it was, the group's website array empty. When the group's \<^verbatim>\<open>div\<close> is the one
  passed and shows an empty website list, both calls return, the collection saved last is
  the original one and the list shown is empty again.
\<close>

theorem add_then_remove_website:
  assumes "groups s = pre @ g # post" and "title g = t"
    and "\<forall>h \<in> set pre. title h \<noteq> t"
    and "websites g = []"
  shows "groups (snd (addWebsiteToGroup w t d s)) = pre @ g\<lparr>websites := [w]\<rparr> # post
    \<and> groups (snd (removeWebsiteFromGroup t w (snd (addWebsiteToGroup w t d s)))) = groups s
    \<and> (length pre < length (children s) \<and> children s ! length pre = d
         \<and> querySelector_websites s d = Some []
       \<longrightarrow> fst (addWebsiteToGroup w t d s) = Returned
         \<and> fst (removeWebsiteFromGroup t w (snd (addWebsiteToGroup w t d s))) = Returned
         \<and> storage (snd (removeWebsiteFromGroup t w (snd (addWebsiteToGroup w t d s))))
               (js ''groups'') = Some (groups_val (groups s))
         \<and> querySelector_websites
               (snd (removeWebsiteFromGroup t w (snd (addWebsiteToGroup w t d s)))) d = Some [])"
proof -
  let ?g1 = "g\<lparr>websites := [w]\<rparr>"
  let ?s1 = "snd (addWebsiteToGroup w t d s)"
  let ?s2 = "snd (removeWebsiteFromGroup t w ?s1)"
  have i: "findIndex (\<lambda>g. title g = t) (groups s) = int (length pre)"
    using assms by (simp add: findIndex_first)
  have added: "groups ?s1 = pre @ ?g1 # post"
    using assms(1,4) i
    by (simp add: addWebsiteToGroup_def Let_def element_at_middle array_includes_def
        saveGroups_def set_websites_el_def split: option.splits)
  have i1: "findIndex (\<lambda>g. title g = t) (groups ?s1) = int (length pre)"
    using assms added by (simp add: findIndex_first)
  have j: "indexOf (websites ?g1) w = 0"
    by (simp add: indexOf_def)
  have sp: "array_splice [w] 0 (Suc 0) = []"
    by (simp add: array_splice_def)
  have g0: "g\<lparr>websites := []\<rparr> = g"
    using assms(4) by simp
  have removed: "groups ?s2 = groups s"
    using added i1 j assms(1) sp g0
    by (simp add: removeWebsiteFromGroup_def Let_def element_at_middle saveGroups_def
        set_websites_el_def split: option.splits)
  have shown: "fst (addWebsiteToGroup w t d s) = Returned
         \<and> fst (removeWebsiteFromGroup t w ?s1) = Returned
         \<and> storage ?s2 (js ''groups'') = Some (groups_val (groups s))
         \<and> querySelector_websites ?s2 d = Some []"
    if dom: "length pre < length (children s) \<and> children s ! length pre = d
         \<and> querySelector_websites s d = Some []"
  proof -
    from dom have d: "d < length (elements s)"
      by (simp add: querySelector_websites_def split: if_splits)
    from dom d have w0: "websites_el (elements s ! d) = Some []"
      by (simp add: querySelector_websites_def)
    have s1: "addWebsiteToGroup w t d s =
        (Returned, saveGroups (set_websites_el d [w] (s\<lparr>groups := pre @ ?g1 # post\<rparr>)))"
      using assms(1,4) i d w0
      by (simp add: addWebsiteToGroup_def Let_def element_at_middle array_includes_def
          querySelector_websites_def)
    have c: "element_at (children ?s1) (int (length pre)) = Some d"
      using dom by (simp add: s1 saveGroups_def set_websites_el_def element_at_def)
    have q: "querySelector_websites ?s1 d = Some [w]"
      using d by (simp add: s1 saveGroups_def set_websites_el_def querySelector_websites_def)
    have e: "element_at [w] 0 = Some w"
      by (simp add: element_at_def)
    have s2: "removeWebsiteFromGroup t w ?s1 =
        (Returned, saveGroups (set_websites_el d [] (?s1\<lparr>groups := groups s\<rparr>)))"
      using added i1 j sp g0 c q e assms(1)
      by (simp add: removeWebsiteFromGroup_def Let_def element_at_middle removeChildAt_def
          querySelector_websites_groups)
    have len: "length (elements ?s1) = length (elements s)"
      by (simp add: s1 saveGroups_def set_websites_el_def)
    have r1: "fst (addWebsiteToGroup w t d s) = Returned"
      by (simp add: s1)
    have r2: "fst (removeWebsiteFromGroup t w ?s1) = Returned"
      by (simp only: s2 fst_conv)
    have st: "storage ?s2 (js ''groups'') = Some (groups_val (groups s))"
      by (simp only: s2 snd_conv) (simp add: saveGroups_def set_websites_el_def)
    have q2: "querySelector_websites ?s2 d = Some []"
      using d len
      by (simp only: s2 snd_conv)
        (simp add: saveGroups_def set_websites_el_def querySelector_websites_def)
    show ?thesis
      using r1 r2 st q2 by simp
  qed
  show ?thesis
    using added removed shown by blast
qed

theorem add_then_remove_website_witness:
  "groups (snd (addWebsiteToGroup (js ''twitter.com'') (js ''Work'') 0 (opened [work_group]))) =
     [work_group\<lparr>websites := [js ''twitter.com'']\<rparr>]
   \<and> groups (snd (removeWebsiteFromGroup (js ''Work'') (js ''twitter.com'')
        (snd (addWebsiteToGroup (js ''twitter.com'') (js ''Work'') 0 (opened [work_group]))))) =
     [work_group]
   \<and> fst (removeWebsiteFromGroup (js ''Work'') (js ''twitter.com'')
        (snd (addWebsiteToGroup (js ''twitter.com'') (js ''Work'') 0 (opened [work_group])))) =
     Returned"
  using add_then_remove_website [of "opened [work_group]" "[]" work_group "[]" "js ''Work''"
      "js ''twitter.com''" 0]
  by (simp add: opened_def displayAllGroups_def displayGroup_def work_group_def
      querySelector_websites_def)

section \<open>The regular-expression matcher\<close>

lemma nullable_iff: "nullable r \<longleftrightarrow> [] \<in> lang r"
  by (induction r) (auto simp: conc_def intro: star.star_nil)

lemma star_Cons:
  "c # s \<in> star A \<longleftrightarrow> (\<exists>u v. s = u @ v \<and> c # u \<in> A \<and> v \<in> star A)"
proof
  have "x \<in> star A \<Longrightarrow> x = c # s \<Longrightarrow> \<exists>u v. s = u @ v \<and> c # u \<in> A \<and> v \<in> star A" for x
  proof (induction arbitrary: s rule: star.induct)
    case star_nil
    then show ?case by simp
  next
    case (star_step u v)
    show ?case
    proof (cases u)
      case Nil
      with star_step show ?thesis by simp
    next
      case (Cons a u')
      with star_step.prems star_step.hyps show ?thesis by auto
    qed
  qed
  then show "c # s \<in> star A \<Longrightarrow> \<exists>u v. s = u @ v \<and> c # u \<in> A \<and> v \<in> star A"
    by blast
next
  assume "\<exists>u v. s = u @ v \<and> c # u \<in> A \<and> v \<in> star A"
  then obtain u v where "s = u @ v" "c # u \<in> A" "v \<in> star A"
    by blast
  then show "c # s \<in> star A"
    using star.star_step [of "c # u" A v] by simp
qed

lemma lang_deriv: "s \<in> lang (deriv c r) \<longleftrightarrow> c # s \<in> lang r"
proof (induction r arbitrary: s)
  case (Seq r1 r2)
  then show ?case
    by (auto simp: conc_def nullable_iff Cons_eq_append_conv)
next
  case (Star r)
  then show ?case
    by (auto simp: conc_def star_Cons)
qed auto

text \<open>The matcher decides membership in the language of the expression.\<close>

lemma matches_lang: "matches r s \<longleftrightarrow> s \<in> lang r"
  unfolding matches_def
  by (induction s arbitrary: r) (simp_all add: nullable_iff lang_deriv)

lemma star_concat: "s \<in> star A \<longleftrightarrow> (\<exists>ws. s = concat ws \<and> set ws \<subseteq> A)"
proof
  show "s \<in> star A \<Longrightarrow> \<exists>ws. s = concat ws \<and> set ws \<subseteq> A"
  proof (induction rule: star.induct)
    case star_nil
    show ?case by (rule exI [of _ "[]"]) simp
  next
    case (star_step u v)
    then obtain ws where "v = concat ws" "set ws \<subseteq> A" by blast
    with star_step.hyps show ?case
      by (intro exI [of _ "u # ws"]) simp
  qed
next
  have "set ws \<subseteq> A \<Longrightarrow> concat ws \<in> star A" for ws
    by (induction ws) (auto intro: star.intros)
  then show "\<exists>ws. s = concat ws \<and> set ws \<subseteq> A \<Longrightarrow> s \<in> star A"
    by blast
qed

lemma lang_one_or_more:
  "s \<in> lang (one_or_more r) \<longleftrightarrow> (\<exists>ws. ws \<noteq> [] \<and> set ws \<subseteq> lang r \<and> s = concat ws)"
proof
  assume "s \<in> lang (one_or_more r)"
  then obtain u ws where "u \<in> lang r" "set ws \<subseteq> lang r" "s = u @ concat ws"
    by (auto simp: one_or_more_def conc_def star_concat)
  then show "\<exists>ws. ws \<noteq> [] \<and> set ws \<subseteq> lang r \<and> s = concat ws"
    by (intro exI [of _ "u # ws"]) simp
next
  assume "\<exists>ws. ws \<noteq> [] \<and> set ws \<subseteq> lang r \<and> s = concat ws"
  then obtain u ws where "u \<in> lang r" "set ws \<subseteq> lang r" "s = u @ concat ws"
    by (cases rule: exE) (auto simp: neq_Nil_conv)
  then show "s \<in> lang (one_or_more r)"
    by (auto simp: one_or_more_def conc_def star_concat)
qed

lemma conc_class:
  "w \<in> conc {[c] |c. P c} B \<longleftrightarrow> (\<exists>c v. w = c # v \<and> P c \<and> v \<in> B)"
proof
  show "w \<in> conc {[c] |c. P c} B \<Longrightarrow> \<exists>c v. w = c # v \<and> P c \<and> v \<in> B"
    by (auto simp: conc_def)
next
  assume "\<exists>c v. w = c # v \<and> P c \<and> v \<in> B"
  then obtain c v where "w = [c] @ v" "P c" "v \<in> B"
    by auto
  then show "w \<in> conc {[c] |c. P c} B"
    unfolding conc_def by blast
qed

lemma conc_insert_Nil: "conc (insert [] A) B = B \<union> conc A B"
proof
  show "conc (insert [] A) B \<subseteq> B \<union> conc A B"
    by (auto simp: conc_def)
next
  have "w \<in> conc (insert [] A) B" if "w \<in> B" for w
  proof -
    from that have "w = [] @ w \<and> [] \<in> insert [] A \<and> w \<in> B"
      by simp
    then show ?thesis
      unfolding conc_def by blast
  qed
  moreover have "conc A B \<subseteq> conc (insert [] A) B"
    unfolding conc_def by blast
  ultimately show "B \<union> conc A B \<subseteq> conc (insert [] A) B"
    by blast
qed

lemma star_class: "w \<in> star {[c] |c. in_class ranges c} \<longleftrightarrow> (\<forall>c \<in> set w. in_class ranges c)"
  by (induction w) (auto simp: star_Cons intro: star.star_nil)

lemma lang_one_or_more_class:
  "w \<in> lang (one_or_more (Class ranges)) \<longleftrightarrow> w \<noteq> [] \<and> (\<forall>c \<in> set w. in_class ranges c)"
  by (cases w) (simp_all add: one_or_more_def conc_class star_class)

lemma lang_exactly_class:
  "w \<in> lang (exactly n (Class ranges)) \<longleftrightarrow> length w = n \<and> (\<forall>c \<in> set w. in_class ranges c)"
proof (induction n arbitrary: w)
  case 0
  show ?case by auto
next
  case (Suc n)
  show ?case
    by (cases w) (auto simp: conc_class Suc)
qed

lemma lang_at_most_class:
  "w \<in> lang (exactly n (Alt (Class ranges) Empty)) \<longleftrightarrow>
     length w \<le> n \<and> (\<forall>c \<in> set w. in_class ranges c)"
proof (induction n arbitrary: w)
  case 0
  show ?case by auto
next
  case (Suc n)
  show ?case
    by (cases w) (auto simp: conc_insert_Nil conc_class Suc)
qed

lemma lang_between_class:
  assumes "m \<le> n"
  shows "w \<in> lang (between m n (Class ranges)) \<longleftrightarrow>
     m \<le> length w \<and> length w \<le> n \<and> (\<forall>c \<in> set w. in_class ranges c)"
proof
  assume "w \<in> lang (between m n (Class ranges))"
  then obtain u v where "w = u @ v" "length u = m" "\<forall>c \<in> set u. in_class ranges c"
    "length v \<le> n - m" "\<forall>c \<in> set v. in_class ranges c"
    by (auto simp: between_def conc_def lang_exactly_class lang_at_most_class)
  with assms show "m \<le> length w \<and> length w \<le> n \<and> (\<forall>c \<in> set w. in_class ranges c)"
    by auto
next
  assume w: "m \<le> length w \<and> length w \<le> n \<and> (\<forall>c \<in> set w. in_class ranges c)"
  have "take m w \<in> lang (exactly m (Class ranges))"
    using w by (auto simp: lang_exactly_class dest: in_set_takeD)
  moreover have "drop m w \<in> lang (exactly (n - m) (Alt (Class ranges) Empty))"
    using w by (auto simp: lang_at_most_class dest: in_set_dropD)
  ultimately have "take m w @ drop m w \<in> lang (between m n (Class ranges))"
    unfolding between_def lang.simps conc_def by blast
  then show "w \<in> lang (between m n (Class ranges))"
    by simp
qed

lemma lang_dot: "lang dot = {js ''.''}"
  by (auto simp: dot_def in_class_def js_def)

lemma lang_label: "l \<in> lang (one_or_more label_class) \<longleftrightarrow> domain_label l"
  by (simp add: label_class_def lang_one_or_more_class domain_label_def)

lemma lang_label_dot:
  "w \<in> lang (Seq (one_or_more label_class) dot) \<longleftrightarrow> (\<exists>l. domain_label l \<and> w = l @ js ''.'')"
  unfolding lang.simps(4) conc_def lang_dot using lang_label by blast

lemma all_image_iff_map:
  "(\<forall>w \<in> set ws. \<exists>l. P l \<and> w = f l) \<longleftrightarrow> (\<exists>ls. (\<forall>l \<in> set ls. P l) \<and> ws = map f ls)"
proof (induction ws)
  case Nil
  show ?case by simp
next
  case (Cons w ws)
  show ?case
  proof
    assume a: "\<forall>x \<in> set (w # ws). \<exists>l. P l \<and> x = f l"
    then obtain l where l: "P l" "w = f l"
      by auto
    from a have "\<forall>x \<in> set ws. \<exists>l. P l \<and> x = f l"
      by simp
    then have "\<exists>ls. (\<forall>l \<in> set ls. P l) \<and> ws = map f ls"
      by (rule Cons.IH [THEN iffD1])
    then obtain ls where ls: "\<forall>l \<in> set ls. P l" "ws = map f ls"
      by blast
    have "(\<forall>l \<in> set (l # ls). P l) \<and> w # ws = map f (l # ls)"
      using l ls by simp
    then show "\<exists>ls. (\<forall>l \<in> set ls. P l) \<and> w # ws = map f ls"
      by (rule exI)
  next
    assume "\<exists>ls. (\<forall>l \<in> set ls. P l) \<and> w # ws = map f ls"
    then obtain ls where ls: "\<forall>l \<in> set ls. P l" "w # ws = map f ls"
      by (elim exE conjE)
    from ls(2) have "\<exists>l ls'. ls = l # ls' \<and> w = f l \<and> ws = map f ls'"
      by (auto simp: Cons_eq_map_conv)
    then obtain l ls' where c: "ls = l # ls'" "w = f l" "ws = map f ls'"
      by blast
    from ls(1) c(1) have p: "P l" "\<forall>l \<in> set ls'. P l"
      by simp_all
    from p(2) c(3) have "\<exists>ls. (\<forall>l \<in> set ls. P l) \<and> ws = map f ls"
      by blast
    then have "\<forall>x \<in> set ws. \<exists>l. P l \<and> x = f l"
      by (rule Cons.IH [THEN iffD2])
    with p(1) c(2) show "\<forall>x \<in> set (w # ws). \<exists>l. P l \<and> x = f l"
      by auto
  qed
qed

lemma set_subset_labels:
  "set ws \<subseteq> lang (Seq (one_or_more label_class) dot) \<longleftrightarrow>
     (\<exists>labels. (\<forall>l \<in> set labels. domain_label l) \<and> ws = map (\<lambda>l. l @ js ''.'') labels)"
proof -
  have "set ws \<subseteq> lang (Seq (one_or_more label_class) dot) \<longleftrightarrow>
      (\<forall>w \<in> set ws. \<exists>l. domain_label l \<and> w = l @ js ''.'')"
    unfolding subset_iff lang_label_dot by blast
  then show ?thesis
    unfolding all_image_iff_map [of ws domain_label "\<lambda>l. l @ js ''.''"] .
qed

text \<open>The pattern of the source matches exactly the domain names of the specification.\<close>

lemma lang_domainPattern: "h \<in> lang domainPattern \<longleftrightarrow> domain_name h"
proof
  assume "h \<in> lang domainPattern"
  then have "\<exists>u t. h = u @ t \<and> u \<in> lang (one_or_more (Seq (one_or_more label_class) dot))
      \<and> t \<in> lang (between 2 11 letter_class)"
    unfolding domainPattern_def lang.simps(4) conc_def by simp
  then obtain u t where h: "h = u @ t"
    and u: "u \<in> lang (one_or_more (Seq (one_or_more label_class) dot))"
    and t: "t \<in> lang (between 2 11 letter_class)"
    by (elim exE conjE)
  from u obtain ws where ws: "ws \<noteq> []" "set ws \<subseteq> lang (Seq (one_or_more label_class) dot)"
    "u = concat ws"
    unfolding lang_one_or_more by (elim exE conjE)
  from ws(2) obtain labels where labels: "\<forall>l \<in> set labels. domain_label l"
    "ws = map (\<lambda>l. l @ js ''.'') labels"
    unfolding set_subset_labels by (elim exE conjE)
  from ws(1) labels(2) have ne: "labels \<noteq> []"
    by auto
  from t have tl: "top_level t"
    by (simp add: letter_class_def lang_between_class top_level_def)
  have "labels \<noteq> [] \<and> (\<forall>l \<in> set labels. domain_label l) \<and> top_level t
      \<and> h = concat (map (\<lambda>l. l @ js ''.'') labels) @ t"
    using ne labels(1) tl h ws(3) labels(2) by simp
  then show "domain_name h"
    unfolding domain_name_def by (intro exI)
next
  assume "domain_name h"
  then obtain labels t where labels: "labels \<noteq> []" "\<forall>l \<in> set labels. domain_label l"
    and t: "top_level t" and h: "h = concat (map (\<lambda>l. l @ js ''.'') labels) @ t"
    unfolding domain_name_def by (elim exE conjE)
  let ?ws = "map (\<lambda>l. l @ js ''.'') labels"
  from labels(2) have "\<exists>ls. (\<forall>l \<in> set ls. domain_label l) \<and> ?ws = map (\<lambda>l. l @ js ''.'') ls"
    by (intro exI [of _ labels]) simp
  then have "set ?ws \<subseteq> lang (Seq (one_or_more label_class) dot)"
    unfolding set_subset_labels .
  with labels(1) have "?ws \<noteq> [] \<and> set ?ws \<subseteq> lang (Seq (one_or_more label_class) dot)
      \<and> concat ?ws = concat ?ws"
    by simp
  then have u: "concat ?ws \<in> lang (one_or_more (Seq (one_or_more label_class) dot))"
    unfolding lang_one_or_more by (rule exI)
  from t have "t \<in> lang (between 2 11 letter_class)"
    by (simp add: letter_class_def lang_between_class top_level_def)
  with u have "h = concat ?ws @ t
      \<and> concat ?ws \<in> lang (one_or_more (Seq (one_or_more label_class) dot))
      \<and> t \<in> lang (between 2 11 letter_class)"
    using h by simp
  then have "\<exists>u v. h = u @ v \<and> u \<in> lang (one_or_more (Seq (one_or_more label_class) dot))
      \<and> v \<in> lang (between 2 11 letter_class)"
    by (intro exI)
  then show "h \<in> lang domainPattern"
    unfolding domainPattern_def lang.simps(4) conc_def by simp
qed

text \<open>A domain name never starts with \<^verbatim>\<open>://\<close>, so the lookahead refuses none of them.\<close>

lemma domain_name_no_scheme_mark:
  assumes "domain_name h"
  shows "\<not> startsWith h (js ''://'')"
proof -
  from assms obtain labels t where labels: "labels \<noteq> []" "\<forall>l \<in> set labels. domain_label l"
    and h: "h = concat (map (\<lambda>l. l @ js ''.'') labels) @ t"
    unfolding domain_name_def by (elim exE conjE)
  from labels obtain l ls where l: "labels = l # ls" "domain_label l"
    by (cases labels) simp_all
  from l(2) obtain c cs where c: "l = c # cs"
    "in_class [(0x61, 0x7A), (0x41, 0x5A), (0x30, 0x39), (0x2D, 0x2D), (0x5F, 0x5F)] c"
    unfolding domain_label_def by (cases l) simp_all
  from c(2) have "c \<noteq> 0x3A"
    by (auto simp: in_class_def)
  then show ?thesis
    unfolding h l(1) c(1) by (simp add: startsWith_def js_def)
qed

lemma domainPattern_test_iff: "domainPattern_test h \<longleftrightarrow> domain_name h"
  using domain_name_no_scheme_mark [of h]
  unfolding domainPattern_test_def matches_lang lang_domainPattern by blast

section \<open>Validating a URL\<close>

text \<open>
  \<^verbatim>\<open>http://\<close> is prefixed exactly when the input has no \<^verbatim>\<open>://\<close> anywhere in it.
\<close>

lemma with_scheme_iff:
  "with_scheme raw = (if \<exists>u v. raw = u @ js ''://'' @ v then raw else js ''http://'' @ raw)"
  unfolding with_scheme_def string_includes_iff ..

text \<open>Whether the strings used below hold \<^verbatim>\<open>://\<close>.\<close>

lemma includes_scheme_mark:
  "(\<exists>u v. js ''example.co.uk'' = u @ js ''://'' @ v) = False"
  "(\<exists>u v. js ''not a url'' = u @ js ''://'' @ v) = False"
  "(\<exists>u v. js ''example.com'' = u @ js ''://'' @ v) = False"
  "(\<exists>u v. js ''mailto:me@example.com'' = u @ js ''://'' @ v) = False"
  "(\<exists>u v. js ''https://example.com/'' = u @ js ''://'' @ v) = True"
  "(\<exists>u v. js ''https://sub.example.com/path'' = u @ js ''://'' @ v) = True"
  unfolding string_includes_iff [symmetric]
  by (simp_all add: js_def startsWith_def)

lemma isValidUrl_iff:
  "isValidUrl hostname_of raw =
     (case hostname_of (with_scheme raw) of None \<Rightarrow> False | Some h \<Rightarrow> domain_name h)"
  by (simp add: isValidUrl_def domainPattern_test_iff split: option.splits)

lemma with_scheme_plain:
  "with_scheme (js ''not a url'') = js ''http://not a url''"
  "with_scheme (js ''example.com'') = js ''http://example.com''"
  by (simp_all add: with_scheme_def js_def startsWith_def)

lemma domain_name_example: "domain_name (js ''example.com'')"
proof -
  have "[js ''example''] \<noteq> [] \<and> (\<forall>l \<in> set [js ''example'']. domain_label l)
      \<and> top_level (js ''com'')
      \<and> js ''example.com'' = concat (map (\<lambda>l. l @ js ''.'') [js ''example'']) @ js ''com''"
    by (simp add: domain_label_def top_level_def in_class_def js_def)
  then show ?thesis
    unfolding domain_name_def by (intro exI)
qed

lemma domain_name_not_Nil: "\<not> domain_name []"
  by (auto simp: domain_name_def top_level_def)

text \<open>
  Claim C6, as the code has it. \<^verbatim>\<open>isValidUrl\<close> prefixes \<^verbatim>\<open>http://\<close> to the input exactly
  when the input does not contain \<^verbatim>\<open>://\<close> (whether or not it starts with a scheme), and
  it is true exactly when the resulting string parses as a URL whose hostname is a domain
  name as the specification words it: one or more labels, each followed by a dot, then 2
  to 11 letters; a parse error gives false. In particular \<^verbatim>\<open>not a url\<close>, which the
  constructor refuses, is invalid, and \<^verbatim>\<open>example.com\<close>, whose hostname is
  \<^verbatim>\<open>example.com\<close>, is valid.
\<close>

theorem isValidUrl_domain_name:
  "isValidUrl hostname_of raw =
     (case hostname_of (if \<exists>u v. raw = u @ js ''://'' @ v then raw else js ''http://'' @ raw) of
        None \<Rightarrow> False
      | Some h \<Rightarrow> domain_name h)
   \<and> (hostname_of (js ''http://not a url'') = None
      \<longrightarrow> \<not> isValidUrl hostname_of (js ''not a url''))
   \<and> (hostname_of (js ''http://example.com'') = Some (js ''example.com'')
      \<longrightarrow> isValidUrl hostname_of (js ''example.com''))"
proof (intro conjI)
  show "isValidUrl hostname_of raw =
     (case hostname_of (if \<exists>u v. raw = u @ js ''://'' @ v then raw else js ''http://'' @ raw) of
        None \<Rightarrow> False
      | Some h \<Rightarrow> domain_name h)"
    unfolding with_scheme_iff [symmetric] by (rule isValidUrl_iff)
qed (simp_all add: isValidUrl_iff with_scheme_plain domain_name_example)

theorem isValidUrl_domain_name_witness:
  "isValidUrl hostname_table (js ''example.com'')
   \<and> \<not> isValidUrl hostname_table (js ''not a url'')
   \<and> isValidUrl hostname_table (js ''https://example.com/'')
   \<and> isValidUrl hostname_table (js ''mailto:me@example.com'')"
proof -
  have t: "hostname_table (js ''http://example.com'') = Some (js ''example.com'')"
    "hostname_table (js ''http://not a url'') = None"
    "hostname_table (js ''https://example.com/'') = Some (js ''example.com'')"
    "hostname_table (js ''http://'' @ js ''mailto:me@example.com'') = Some (js ''example.com'')"
    by (simp_all add: hostname_table_def js_def)
  have "isValidUrl hostname_table (js ''example.com'')"
    and "\<not> isValidUrl hostname_table (js ''not a url'')"
    using isValidUrl_domain_name [of hostname_table "js ''example.com''"] t(1,2) by blast+
  moreover have "isValidUrl hostname_table (js ''https://example.com/'')"
    using isValidUrl_domain_name [of hostname_table "js ''https://example.com/''"] t(3)
    by (simp add: includes_scheme_mark domain_name_example)
  moreover have "isValidUrl hostname_table (js ''mailto:me@example.com'')"
    using isValidUrl_domain_name [of hostname_table "js ''mailto:me@example.com''"] t(4)
    by (simp add: includes_scheme_mark domain_name_example)
  ultimately show ?thesis
    by simp
qed

text \<open>
  The claim as written prefixes the default scheme if none is present. The input
  \<^verbatim>\<open>mailto:me@example.com\<close> has a scheme; taken as it is, it has an empty hostname, which
  is no domain name, so the claim gives false. The code finds no \<^verbatim>\<open>://\<close> in it, parses
  \<^verbatim>\<open>http://mailto:me@example.com\<close>, whose hostname is \<^verbatim>\<open>example.com\<close>, and gives true.
\<close>

theorem isValidUrl_scheme_counterexample:
  "scheme_present (js ''mailto:me@example.com'')
   \<and> hostname_table (js ''mailto:me@example.com'') = Some []
   \<and> \<not> domain_name []
   \<and> isValidUrl hostname_table (js ''mailto:me@example.com'')"
proof -
  have "js ''mailto:me@example.com'' = js ''mailto'' @ js '':'' @ js ''me@example.com''
      \<and> js ''mailto'' \<noteq> []
      \<and> in_class [(0x61, 0x7A), (0x41, 0x5A)] (hd (js ''mailto''))
      \<and> (\<forall>c \<in> set (js ''mailto'').
            in_class [(0x61, 0x7A), (0x41, 0x5A), (0x30, 0x39), (0x2B, 0x2B), (0x2D, 0x2E)] c)"
    by (simp add: js_def in_class_def)
  then have "scheme_present (js ''mailto:me@example.com'')"
    unfolding scheme_present_def by (intro exI)
  moreover have "hostname_table (js ''mailto:me@example.com'') = Some []"
    by (simp add: hostname_table_def js_def)
  moreover have "hostname_table (with_scheme (js ''mailto:me@example.com'')) =
      Some (js ''example.com'')"
    by (simp add: with_scheme_def hostname_table_def js_def startsWith_def)
  then have "isValidUrl hostname_table (js ''mailto:me@example.com'')"
    by (simp add: isValidUrl_iff domain_name_example)
  ultimately show ?thesis
    using domain_name_not_Nil by simp
qed

section \<open>Normalizing a URL\<close>

lemma getBaseUrl_labels:
  assumes "hostname_of (with_scheme raw) = Some (join (js ''.'') labels)"
    and "labels \<noteq> []" and "\<forall>l \<in> set labels. 0x2E \<notin> set l"
  shows "getBaseUrl hostname_of raw = Inr (join (js ''.'') (drop (length labels - 2) labels))"
proof -
  have "js ''.'' = [0x2E]"
    by (simp add: js_def)
  with assms show ?thesis
    by (simp add: getBaseUrl_def Let_def split_on_join slice_from_last_two)
qed

lemma with_scheme_https: "with_scheme (js ''https://sub.example.com/path'') = js ''https://sub.example.com/path''"
  by (simp add: with_scheme_def js_def startsWith_def)

lemma getBaseUrl_example:
  "hostname_of (js ''https://sub.example.com/path'') = Some (js ''sub.example.com'')
   \<Longrightarrow> getBaseUrl hostname_of (js ''https://sub.example.com/path'') = Inr (js ''example.com'')"
  by (simp add: getBaseUrl_def with_scheme_https Let_def slice_from_def) (simp add: js_def)

text \<open>Without a hostname there is no result: the constructor's exception leaves the function.\<close>

lemma getBaseUrl_parse_error:
  "hostname_of (with_scheme raw) = None \<Longrightarrow> getBaseUrl hostname_of raw = Inl TypeError"
  by (simp add: getBaseUrl_def)

text \<open>Every hostname is the join of its dot-free labels, and the result is made of them.\<close>

lemma getBaseUrl_parsed:
  assumes "hostname_of (with_scheme raw) = Some h"
  shows "\<exists>labels. labels \<noteq> [] \<and> (\<forall>l \<in> set labels. 0x2E \<notin> set l)
           \<and> h = join (js ''.'') labels
           \<and> getBaseUrl hostname_of raw =
               Inr (join (js ''.'') (drop (length labels - 2) labels))"
proof -
  have dot: "js ''.'' = [0x2E]"
    by (simp add: js_def)
  have "split_on 0x2E h \<noteq> [] \<and> (\<forall>l \<in> set (split_on 0x2E h). 0x2E \<notin> set l)
      \<and> h = join (js ''.'') (split_on 0x2E h)
      \<and> getBaseUrl hostname_of raw =
          Inr (join (js ''.'') (drop (length (split_on 0x2E h) - 2) (split_on 0x2E h)))"
    using assms split_on_sep_free [of "0x2E" h]
    by (simp add: getBaseUrl_def Let_def slice_from_last_two split_on_not_Nil dot join_split_on)
  then show ?thesis
    by (rule exI)
qed

text \<open>
  Claim C5, as the code has it. \<^verbatim>\<open>getBaseUrl\<close> prefixes \<^verbatim>\<open>http://\<close> to the input exactly
  when the input does not contain \<^verbatim>\<open>://\<close>. When the constructor refuses the resulting
  string, the function throws a \<^verbatim>\<open>TypeError\<close> and returns nothing. Otherwise the hostname
  is the join of dot-free labels, and the function returns the last two of them joined by
  a dot (the hostname itself if it has a single label). In particular
  \<^verbatim>\<open>https://sub.example.com/path\<close>, whose hostname is \<^verbatim>\<open>sub.example.com\<close>, gives
  \<^verbatim>\<open>example.com\<close>.
\<close>

theorem getBaseUrl_last_two_labels:
  "(hostname_of (if \<exists>u v. raw = u @ js ''://'' @ v then raw else js ''http://'' @ raw) = None
    \<longrightarrow> getBaseUrl hostname_of raw = Inl TypeError)
   \<and> (hostname_of (if \<exists>u v. raw = u @ js ''://'' @ v then raw else js ''http://'' @ raw) = Some h
    \<longrightarrow> (\<exists>labels. labels \<noteq> [] \<and> (\<forall>l \<in> set labels. 0x2E \<notin> set l)
           \<and> h = join (js ''.'') labels
           \<and> getBaseUrl hostname_of raw =
               Inr (join (js ''.'') (drop (length labels - 2) labels))))
   \<and> (hostname_of (if \<exists>u v. raw = u @ js ''://'' @ v then raw else js ''http://'' @ raw) =
         Some (join (js ''.'') labels)
       \<and> labels \<noteq> [] \<and> (\<forall>l \<in> set labels. 0x2E \<notin> set l)
    \<longrightarrow> getBaseUrl hostname_of raw = Inr (join (js ''.'') (drop (length labels - 2) labels)))
   \<and> (hostname_of (js ''https://sub.example.com/path'') = Some (js ''sub.example.com'')
    \<longrightarrow> getBaseUrl hostname_of (js ''https://sub.example.com/path'') = Inr (js ''example.com''))"
  unfolding with_scheme_iff [symmetric]
  using getBaseUrl_parse_error [of hostname_of raw] getBaseUrl_parsed [of hostname_of raw h]
    getBaseUrl_labels [of hostname_of raw labels] getBaseUrl_example [of hostname_of]
  by blast

theorem getBaseUrl_last_two_labels_witness:
  "getBaseUrl hostname_table (js ''example.co.uk'') = Inr (js ''co.uk'')
   \<and> getBaseUrl hostname_table (js ''https://sub.example.com/path'') = Inr (js ''example.com'')
   \<and> getBaseUrl hostname_table (js ''mailto:me@example.com'') = Inr (js ''example.com'')
   \<and> getBaseUrl hostname_table (js ''not a url'') = Inl TypeError"
proof -
  have t: "hostname_table (js ''http://'' @ js ''example.co.uk'') =
        Some (join (js ''.'') [js ''example'', js ''co'', js ''uk''])"
    "hostname_table (js ''https://sub.example.com/path'') = Some (js ''sub.example.com'')"
    "hostname_table (js ''http://'' @ js ''mailto:me@example.com'') =
        Some (join (js ''.'') [js ''example'', js ''com''])"
    "hostname_table (js ''http://'' @ js ''not a url'') = None"
    by (simp_all add: hostname_table_def js_def)
  have d: "\<forall>l \<in> set [js ''example'', js ''co'', js ''uk'']. 0x2E \<notin> set l"
    "\<forall>l \<in> set [js ''example'', js ''com'']. 0x2E \<notin> set l"
    by (simp_all add: js_def)
  have "getBaseUrl hostname_table (js ''example.co.uk'') =
      Inr (join (js ''.'') (drop (length [js ''example'', js ''co'', js ''uk''] - 2)
        [js ''example'', js ''co'', js ''uk'']))"
    using getBaseUrl_last_two_labels [of hostname_table "js ''example.co.uk''" _
        "[js ''example'', js ''co'', js ''uk'']"] t(1) d(1)
    by (simp only: includes_scheme_mark if_False) blast
  then have uk: "getBaseUrl hostname_table (js ''example.co.uk'') = Inr (js ''co.uk'')"
    by (simp add: js_def)
  have sub: "getBaseUrl hostname_table (js ''https://sub.example.com/path'') =
      Inr (js ''example.com'')"
    using getBaseUrl_last_two_labels [of hostname_table] t(2) by blast
  have "getBaseUrl hostname_table (js ''mailto:me@example.com'') =
      Inr (join (js ''.'') (drop (length [js ''example'', js ''com''] - 2)
        [js ''example'', js ''com'']))"
    using getBaseUrl_last_two_labels [of hostname_table "js ''mailto:me@example.com''" _
        "[js ''example'', js ''com'']"] t(3) d(2)
    by (simp only: includes_scheme_mark if_False) blast
  then have mail: "getBaseUrl hostname_table (js ''mailto:me@example.com'') =
      Inr (js ''example.com'')"
    by (simp add: js_def)
  have bad: "getBaseUrl hostname_table (js ''not a url'') = Inl TypeError"
    using getBaseUrl_last_two_labels [of hostname_table "js ''not a url''"] t(4)
    by (simp only: includes_scheme_mark if_False)
  from uk sub mail bad show ?thesis
    by simp
qed

text \<open>
  The claim as written: every input gives the join of two labels. The constructor refuses
  \<^verbatim>\<open>http://not a url\<close>, so for the input \<^verbatim>\<open>not a url\<close> the function throws and gives no
  string.
\<close>

theorem getBaseUrl_refused_counterexample:
  "hostname_table (js ''http://not a url'') = None
   \<and> getBaseUrl hostname_table (js ''not a url'') = Inl TypeError"
  by (simp add: getBaseUrl_def with_scheme_plain) (simp add: hostname_table_def js_def)

end
